theory Spec2Isabelle
  imports Main
begin

section \<open>Python values used by \<open>kook_api.py\<close>\<close>

text \<open>
  A Python \<open>str\<close> is a sequence of Unicode code points, so a string is a list of
  natural numbers, one per code point. \<open>u ''abc''\<close> writes an ASCII literal.
\<close>

type_synonym pystr = "nat list"

definition u :: "string \<Rightarrow> pystr" where
  "u s = map of_char s"

text \<open>
  \<open>str.isspace\<close> for one code point: the code points CPython treats as whitespace
  in \<open>strip()\<close> and \<open>split()\<close>.
\<close>

definition isspace :: "nat \<Rightarrow> bool" where
  "isspace c \<longleftrightarrow>
     (0x09 \<le> c \<and> c \<le> 0x0D) \<or> (0x1C \<le> c \<and> c \<le> 0x20) \<or> c = 0x85 \<or> c = 0xA0 \<or>
     c = 0x1680 \<or> (0x2000 \<le> c \<and> c \<le> 0x200A) \<or> c = 0x2028 \<or> c = 0x2029 \<or>
     c = 0x202F \<or> c = 0x205F \<or> c = 0x3000"

text \<open>\<open>s.strip()\<close>: whitespace removed at both ends.\<close>

definition strip :: "pystr \<Rightarrow> pystr" where
  "strip s = rev (dropWhile isspace (rev (dropWhile isspace s)))"

text \<open>
  \<open>s.split()\<close>: the maximal runs of non-whitespace, in order. \<open>cur\<close> is the token
  being read, reversed.
\<close>

fun split_acc :: "pystr \<Rightarrow> pystr \<Rightarrow> pystr list" where
  "split_acc cur [] = (if cur = [] then [] else [rev cur])"
| "split_acc cur (c # cs) =
     (if isspace c then (if cur = [] then split_acc [] cs else rev cur # split_acc [] cs)
      else split_acc (c # cur) cs)"

definition split :: "pystr \<Rightarrow> pystr list" where
  "split s = split_acc [] s"

text \<open>\<open>sep.join(xs)\<close>.\<close>

fun join :: "pystr \<Rightarrow> pystr list \<Rightarrow> pystr" where
  "join sep [] = []"
| "join sep [x] = x"
| "join sep (x # y # ys) = x @ sep @ join sep (y # ys)"

text \<open>\<open>s.startswith(p)\<close>.\<close>

definition startswith :: "pystr \<Rightarrow> pystr \<Rightarrow> bool" where
  "startswith s p \<longleftrightarrow> take (length p) s = p"

text \<open>
  Two built-ins depend on the Unicode character database, which is not part of the
  program: \<open>str.lower\<close> and \<open>repr\<close> of a string (the text of a \<open>KeyError\<close>). The
  functions below take them as a parameter, so every theorem holds for whatever tables
  the interpreter has. \<open>ascii_builtins\<close> is the instance used on concrete inputs: it
  agrees with Python on printable ASCII strings without quotes or backslashes.
\<close>

record py_builtins =
  str_lower :: "pystr \<Rightarrow> pystr"
  str_repr :: "pystr \<Rightarrow> pystr"

definition ascii_lower :: "pystr \<Rightarrow> pystr" where
  "ascii_lower s = map (\<lambda>c. if 0x41 \<le> c \<and> c \<le> 0x5A then c + 0x20 else c) s"

definition ascii_repr :: "pystr \<Rightarrow> pystr" where
  "ascii_repr s = [0x27] @ s @ [0x27]"

definition ascii_builtins :: py_builtins where
  "ascii_builtins = \<lparr>str_lower = ascii_lower, str_repr = ascii_repr\<rparr>"

text \<open>
  The exceptions that can leave the modelled functions: a \<open>KeyError\<close> or \<open>IndexError\<close>
  of the code itself, an exception of a handler that is outside class \<open>Exception\<close>
  (named by its class, as \<open>SystemExit\<close> or \<open>KeyboardInterrupt\<close>), and whatever the
  \<open>__str__\<close> of a handler's exception raises while the error text is formatted.
\<close>

datatype py_exception =
    KeyError pystr
  | IndexError
  | HandlerBaseException pystr
  | StrRaised

text \<open>\<open>str(e)\<close> for a \<open>KeyError\<close>: the \<open>repr\<close> of the key.\<close>

definition key_error_str :: "py_builtins \<Rightarrow> pystr \<Rightarrow> pystr" where
  "key_error_str py k = str_repr py k"

text \<open>
  The values a caller dictionary may hold (\<open>Dict[str, Any]\<close>) and their truth value.
\<close>

datatype pyval = PyNone | PyBool bool | PyInt int | PyStr pystr

fun truthy :: "pyval \<Rightarrow> bool" where
  "truthy PyNone = False"
| "truthy (PyBool b) = b"
| "truthy (PyInt i) = (i \<noteq> 0)"
| "truthy (PyStr s) = (s \<noteq> [])"

section \<open>CommandHandler: the registry\<close>

text \<open>
  A handler is called with \<open>(args, raw_args)\<close>. It returns a string, or it raises:
  \<^item> \<open>Raises d\<close>: an exception of class \<open>Exception\<close> whose \<open>str\<close> is \<open>d\<close>;
  \<^item> \<open>RaisesNoStr\<close>: an exception of class \<open>Exception\<close> whose \<open>__str__\<close> itself raises;
  \<^item> \<open>RaisesBase c\<close>: an exception of class \<open>c\<close> that derives from \<open>BaseException\<close>
    and not from \<open>Exception\<close>, as \<open>SystemExit\<close> and \<open>KeyboardInterrupt\<close> do.
\<close>

datatype outcome = Returns pystr | Raises pystr | RaisesNoStr | RaisesBase pystr

type_synonym handler = "pystr list \<Rightarrow> pystr \<Rightarrow> outcome"

record command_data =
  func :: handler
  description :: pystr
  usage :: pystr
  permission_level :: int

text \<open>
  The three dictionaries and the prefix of a \<open>CommandHandler\<close>. Logging has no effect
  on any of them and is left out.
\<close>

record command_handler =
  command_prefix :: pystr
  commands :: "pystr \<rightharpoonup> command_data"
  aliases :: "pystr \<rightharpoonup> pystr"
  permissions :: "pystr \<rightharpoonup> int"

text \<open>
  \<open>register_command\<close>: lines 509 to 532. The \<open>try\<close> block holds dictionary stores and
  logging only, so on string arguments nothing raises and the \<open>except\<close> branch is
  never taken: the result is always \<open>True\<close>. \<open>aliases\<close> defaults to \<open>None\<close>.
\<close>

definition register_command ::
  "command_handler \<Rightarrow> pystr \<Rightarrow> handler \<Rightarrow> pystr \<Rightarrow> pystr \<Rightarrow> pystr list option \<Rightarrow> int
     \<Rightarrow> bool \<times> command_handler" where
  "register_command st name f descr usg als lvl =
     (let cmds = (commands st)(name \<mapsto>
                   \<lparr>func = f, description = descr, usage = usg, permission_level = lvl\<rparr>);
          perms = (permissions st)(name \<mapsto> lvl);
          als' = (case als of
                    None \<Rightarrow> aliases st
                  | Some l \<Rightarrow> foldl (\<lambda>m a. m(a \<mapsto> name)) (aliases st) l)
      in (True, st\<lparr>commands := cmds, aliases := als', permissions := perms\<rparr>))"

text \<open>
  \<open>unregister_command\<close>: lines 548 to 567. \<open>del self.permissions[name]\<close> raises
  \<open>KeyError\<close> when the key is missing; the \<open>except\<close> branch then returns \<open>False\<close>
  with the command already deleted.
\<close>

definition unregister_command :: "command_handler \<Rightarrow> pystr \<Rightarrow> bool \<times> command_handler" where
  "unregister_command st name =
     (if commands st name = None then (False, st)
      else
        (let st1 = st\<lparr>commands := (commands st)(name := None)\<rparr> in
         if permissions st1 name = None then (False, st1)
         else
           (let st2 = st1\<lparr>permissions := (permissions st1)(name := None)\<rparr> in
            (True, st2\<lparr>aliases :=
                      (\<lambda>a. if aliases st2 a = Some name then None else aliases st2 a)\<rparr>))))"

text \<open>
  \<open>__init__\<close> and \<open>_register_builtin_commands\<close>: lines 446 to 490. The three built-in
  handlers are bound methods that read the handler's state or probe the network when
  they are called; they are parameters here.
\<close>

definition register_builtin_commands ::
  "command_handler \<Rightarrow> handler \<Rightarrow> handler \<Rightarrow> handler \<Rightarrow> command_handler" where
  "register_builtin_commands st help_command status_command test_command =
     (let st1 = snd (register_command st (u ''help'') help_command
                  [0x663e, 0x793a, 0x5e2e, 0x52a9, 0x4fe1, 0x606f]
                  [0x5b, 0x547d, 0x4ee4, 0x540d, 0x5d]
                  (Some [u ''h'', [0x5e2e, 0x52a9] ]) 0);
          st2 = snd (register_command st1 (u ''status'') status_command
                  [0x663e, 0x793a, 0x673a, 0x5668, 0x4eba, 0x72b6, 0x6001]
                  []
                  (Some [ [0x72b6, 0x6001], u ''stat'']) 0);
          st3 = snd (register_command st2 (u ''test'') test_command
                  [0x6d4b, 0x8bd5, 0x673a, 0x5668, 0x4eba, 0x8fde, 0x63a5]
                  []
                  (Some [ [0x6d4b, 0x8bd5] ]) 0)
      in st3)"

definition init :: "pystr \<Rightarrow> handler \<Rightarrow> handler \<Rightarrow> handler \<Rightarrow> command_handler" where
  "init prefix help_command status_command test_command =
     register_builtin_commands
       \<lparr>command_prefix = prefix, commands = Map.empty, aliases = Map.empty,
        permissions = Map.empty\<rparr>
       help_command status_command test_command"

section \<open>CommandHandler: parsing\<close>

text \<open>
  The dictionary returned by \<open>parse_command\<close>; a key that a branch leaves out is
  \<open>None\<close>.
\<close>

record parsed =
  is_command :: bool
  valid :: "bool option"
  command_name :: "pystr option"
  original_name :: "pystr option"
  args :: "pystr list option"
  raw_args :: "pystr option"
  error :: "pystr option"

definition not_a_command :: parsed where
  "not_a_command =
     \<lparr>is_command = False, valid = None, command_name = None, original_name = None,
      args = None, raw_args = None, error = None\<rparr>"

text \<open>The text of the unknown-command error, \<open>f"... {command_name}"\<close>.\<close>

definition unknown_command_msg :: "pystr \<Rightarrow> pystr" where
  "unknown_command_msg name = [0x672a, 0x77e5, 0x547d, 0x4ee4, 0x3a, 0x20] @ name"

text \<open>
  \<open>parse_command\<close>: lines 579 to 611. \<open>parts[0]\<close> raises \<open>IndexError\<close> on an empty
  list; \<open>parts[1:] if len(parts) > 1 else []\<close> is the tail.
\<close>

definition parse_command ::
  "py_builtins \<Rightarrow> command_handler \<Rightarrow> pystr \<Rightarrow> py_exception + parsed" where
  "parse_command py st message =
     (if \<not> startswith message (command_prefix st) then Inr not_a_command
      else
        (let content = strip (drop (length (command_prefix st)) message) in
         if content = [] then Inr not_a_command
         else
           (case split content of
              [] \<Rightarrow> Inl IndexError
            | p # ps \<Rightarrow>
                (let cname = str_lower py p;
                     actual_command = (case aliases st cname of None \<Rightarrow> cname | Some n \<Rightarrow> n)
                 in if commands st actual_command = None then
                      Inr \<lparr>is_command = True, valid = Some False, command_name = Some cname,
                           original_name = None, args = None, raw_args = None,
                           error = Some (unknown_command_msg cname)\<rparr>
                    else
                      Inr \<lparr>is_command = True, valid = Some True,
                           command_name = Some actual_command, original_name = Some cname,
                           args = Some ps, raw_args = Some (join [0x20] ps),
                           error = None\<rparr>))))"

section \<open>CommandHandler: permission check and execution\<close>

text \<open>
  The caller dictionary \<open>user_info\<close>, \<open>None\<close> by default. \<open>dict_get\<close> is
  \<open>d.get(k, default)\<close>.
\<close>

type_synonym user_info = "(pystr \<times> pyval) list"

definition dict_get :: "user_info \<Rightarrow> pystr \<Rightarrow> pyval \<Rightarrow> pyval" where
  "dict_get d k dflt = (case map_of d k of None \<Rightarrow> dflt | Some v \<Rightarrow> v)"

text \<open>
  \<open>_check_permission\<close>: lines 660 to 682. \<open>not user_info\<close> holds for \<open>None\<close> and for
  the empty dictionary.
\<close>

definition check_permission ::
  "command_handler \<Rightarrow> pystr \<Rightarrow> user_info option \<Rightarrow> bool" where
  "check_permission st cname user =
     (case permissions st cname of
        None \<Rightarrow> False
      | Some required_level \<Rightarrow>
          if required_level = 0 then True
          else
            (case user of
               None \<Rightarrow> False
             | Some d \<Rightarrow>
                 if d = [] then False
                 else if required_level = 1 \<and> truthy (dict_get d (u ''is_admin'') (PyBool False))
                   then True
                 else if required_level = 2 \<and>
                         truthy (dict_get d (u ''is_super_admin'') (PyBool False))
                   then True
                 else False))"

definition invalid_command_msg :: pystr where
  "invalid_command_msg = [0x547d, 0x4ee4, 0x65e0, 0x6548]"

definition permission_denied_msg :: pystr where
  "permission_denied_msg =
     [0x6743, 0x9650, 0x4e0d, 0x8db3, 0xff0c, 0x65e0, 0x6cd5, 0x6267, 0x884c, 0x6b64,
      0x547d, 0x4ee4]"

text \<open>The text built in the \<open>except\<close> branch of \<open>execute_command\<close>.\<close>

definition execution_error_msg :: "pystr \<Rightarrow> pystr \<Rightarrow> pystr" where
  "execution_error_msg cname e =
     [0x6267, 0x884c, 0x547d, 0x4ee4, 0x20, 0x27] @ cname @
     [0x27, 0x20, 0x65f6, 0x51fa, 0x9519, 0x3a, 0x20] @ e"

text \<open>
  \<open>execute_command\<close>: lines 624 to 647. \<open>command_info['command_name']\<close> is read outside
  the \<open>try\<close> block, so a missing key propagates as \<open>KeyError\<close> (\<open>Inl\<close>). Inside the
  block, \<open>except Exception as e\<close> (line 644) takes a missing key and every handler
  exception of class \<open>Exception\<close>, and the branch formats \<open>{e}\<close> into the returned
  text (line 645). An exception outside class \<open>Exception\<close> is not taken by the clause
  and propagates; so does what \<open>__str__\<close> raises while the text is formatted, since
  that happens inside the branch.
\<close>

definition execute_command ::
  "py_builtins \<Rightarrow> command_handler \<Rightarrow> parsed \<Rightarrow> user_info option \<Rightarrow> py_exception + pystr" where
  "execute_command py st command_info user =
     (if \<not> (case valid command_info of None \<Rightarrow> False | Some b \<Rightarrow> b) then
        Inr (case error command_info of None \<Rightarrow> invalid_command_msg | Some e \<Rightarrow> e)
      else
        (case command_name command_info of
           None \<Rightarrow> Inl (KeyError (u ''command_name''))
         | Some cname \<Rightarrow>
             if \<not> check_permission st cname user then Inr permission_denied_msg
             else
               (case commands st cname of
                  None \<Rightarrow> Inr (execution_error_msg cname (key_error_str py cname))
                | Some command_data \<Rightarrow>
                    (case args command_info of
                       None \<Rightarrow>
                         Inr (execution_error_msg cname
                                (key_error_str py (u ''args'')))
                     | Some a \<Rightarrow>
                         (case raw_args command_info of
                            None \<Rightarrow>
                              Inr (execution_error_msg cname
                                     (key_error_str py (u ''raw_args'')))
                          | Some r \<Rightarrow>
                              (case func command_data a r of
                                 Returns result \<Rightarrow> Inr result
                               | Raises e \<Rightarrow> Inr (execution_error_msg cname e)
                               | RaisesNoStr \<Rightarrow> Inl StrRaised
                               | RaisesBase c \<Rightarrow> Inl (HandlerBaseException c)))))))"

section \<open>MessageSender\<close>

text \<open>
  The transport is outside the program. A request is the payload of one
  \<open>requests.post\<close>; the reply is the \<open>code\<close> field of the decoded answer
  (\<open>None\<close> when absent), or an exception raised while posting or decoding. The
  transport is a parameter: it answers a request given the requests made before.
\<close>

record request =
  req_channel_id :: pystr
  req_content :: pystr

datatype reply = Reply "int option" | TransportError

type_synonym transport = "request list \<Rightarrow> request \<Rightarrow> reply"

text \<open>
  What a run leaves behind: the requests posted, the calls of \<open>send_text\<close> with their
  arguments, and the number of \<open>time.sleep(0.5)\<close> pauses taken.
\<close>

record world =
  posts :: "request list"
  send_text_calls :: "(pystr \<times> pystr option) list"
  sleeps :: nat

text \<open>
  \<open>send_text\<close>: lines 70 to 102. \<open>cfg\<close> is what \<open>config_manager.get_channel_id()\<close>
  returns. \<open>not channel_id\<close> holds for \<open>None\<close> and for the empty string.
\<close>

definition send_text ::
  "transport \<Rightarrow> pystr option \<Rightarrow> world \<Rightarrow> pystr \<Rightarrow> pystr option \<Rightarrow> bool \<times> world" where
  "send_text net cfg w content channel_id =
     (let w0 = w\<lparr>send_text_calls := send_text_calls w @ [(content, channel_id)]\<rparr>;
          ch = (case channel_id of None \<Rightarrow> cfg | Some c \<Rightarrow> Some c)
      in case ch of
           None \<Rightarrow> (False, w0)
         | Some c \<Rightarrow>
             if c = [] then (False, w0)
             else if content = [] \<or> strip content = [] then (False, w0)
             else
               (let req = \<lparr>req_channel_id = c, req_content = strip content\<rparr>;
                    w1 = w0\<lparr>posts := posts w0 @ [req]\<rparr>
                in case net (posts w0) req of
                     Reply code \<Rightarrow> (code = Some 0, w1)
                   | TransportError \<Rightarrow> (False, w1)))"

text \<open>
  \<open>send_multiple\<close>: lines 115 to 131. The loop runs over \<open>enumerate(messages, 1)\<close>:
  \<open>n\<close> is \<open>len(messages)\<close>, \<open>i\<close> the running index.
\<close>

fun send_multiple_loop ::
  "transport \<Rightarrow> pystr option \<Rightarrow> pystr option \<Rightarrow> nat \<Rightarrow> nat \<Rightarrow> pystr list
     \<Rightarrow> (pystr \<rightharpoonup> bool) \<Rightarrow> world \<Rightarrow> (pystr \<rightharpoonup> bool) \<times> world" where
  "send_multiple_loop net cfg channel_id n i [] results w = (results, w)"
| "send_multiple_loop net cfg channel_id n i (message # rest) results w =
     (if message = [] \<or> strip message = [] then
        send_multiple_loop net cfg channel_id n (Suc i) rest (results(message \<mapsto> False)) w
      else
        (let (success, w1) = send_text net cfg w message channel_id;
             w2 = (if i < n then w1\<lparr>sleeps := Suc (sleeps w1)\<rparr> else w1)
         in send_multiple_loop net cfg channel_id n (Suc i) rest
              (results(message \<mapsto> success)) w2))"

definition send_multiple ::
  "transport \<Rightarrow> pystr option \<Rightarrow> world \<Rightarrow> pystr list \<Rightarrow> pystr option
     \<Rightarrow> (pystr \<rightharpoonup> bool) \<times> world" where
  "send_multiple net cfg w messages channel_id =
     send_multiple_loop net cfg channel_id (length messages) 1 messages Map.empty w"

section \<open>Notions used to state the properties\<close>

text \<open>Alias resolution, the expression \<open>self.aliases.get(token, token)\<close>.\<close>

definition resolve :: "command_handler \<Rightarrow> pystr \<Rightarrow> pystr" where
  "resolve st token = (case aliases st token of None \<Rightarrow> token | Some n \<Rightarrow> n)"

text \<open>
  Consistency of the registry: every alias points to a registered command, and the
  command and permission dictionaries have the same keys.
\<close>

definition registry_inv :: "command_handler \<Rightarrow> bool" where
  "registry_inv st \<longleftrightarrow>
     (\<forall>a n. aliases st a = Some n \<longrightarrow> n \<in> dom (commands st)) \<and>
     dom (commands st) = dom (permissions st)"

text \<open>The calls that change the registry, and a run of them.\<close>

datatype registry_op =
    Register pystr handler pystr pystr "pystr list option" int
  | Unregister pystr

fun apply_op :: "command_handler \<Rightarrow> registry_op \<Rightarrow> command_handler" where
  "apply_op st (Register name f descr usg als lvl) =
     snd (register_command st name f descr usg als lvl)"
| "apply_op st (Unregister name) = snd (unregister_command st name)"

definition run_ops :: "command_handler \<Rightarrow> registry_op list \<Rightarrow> command_handler" where
  "run_ops st ops = foldl apply_op st ops"

text \<open>\<open>t in s\<close> for strings: \<open>t\<close> occurs in \<open>s\<close>.\<close>

fun contains :: "pystr \<Rightarrow> pystr \<Rightarrow> bool" where
  "contains [] t = (t = [])"
| "contains (c # cs) t = (startswith (c # cs) t \<or> contains cs t)"

text \<open>
  The caller flag as the permission check reads it: a caller dictionary is supplied
  and \<open>get(key, False)\<close> is true.
\<close>

definition caller_flag :: "user_info option \<Rightarrow> pystr \<Rightarrow> bool" where
  "caller_flag user key =
     (case user of None \<Rightarrow> False | Some d \<Rightarrow> truthy (dict_get d key (PyBool False)))"

text \<open>
  The \<open>isCommand\<close> condition in the words of the data model of the specification: the
  trimmed message starts with the prefix and has a non-empty remainder.
\<close>

definition spec_is_command :: "pystr \<Rightarrow> pystr \<Rightarrow> bool" where
  "spec_is_command prefix message \<longleftrightarrow>
     startswith (strip message) prefix \<and> drop (length prefix) (strip message) \<noteq> []"

text \<open>A channel is resolvable: given with the call, or else configured, and not empty.\<close>

definition channel_resolvable :: "pystr option \<Rightarrow> pystr option \<Rightarrow> bool" where
  "channel_resolvable cfg channel_id \<longleftrightarrow>
     (case channel_id of
        None \<Rightarrow> (case cfg of None \<Rightarrow> False | Some c \<Rightarrow> c \<noteq> [])
      | Some c \<Rightarrow> c \<noteq> [])"

text \<open>Concrete handlers, a transport and an empty world for the examples.\<close>

definition pong_handler :: handler where
  "pong_handler a r = Returns (u ''pong'')"

definition failing_handler :: handler where
  "failing_handler a r = Raises (u ''boom'')"

definition ok_transport :: transport where
  "ok_transport history req = Reply (Some 0)"

definition empty_world :: world where
  "empty_world = \<lparr>posts = [], send_text_calls = [], sleeps = 0\<rparr>"

definition example_handler :: command_handler where
  "example_handler = init (u ''!'') pong_handler pong_handler failing_handler"

text \<open>The aliases a registration call goes through: none for \<open>None\<close> or an empty list.\<close>

definition alias_list :: "pystr list option \<Rightarrow> pystr list" where
  "alias_list als = (case als of None \<Rightarrow> [] | Some l \<Rightarrow> l)"

text \<open>
  More examples: a tier-1 command \<open>kick\<close> added to the fresh handler, invocations of
  \<open>kick\<close> and of the built-in \<open>test\<close> as \<open>parse_command\<close> builds them, a caller with
  only the super-admin flag, a handler that exits the interpreter and a fresh handler
  with it as the built-in \<open>test\<close>, the fresh handler with a command \<open>ping\<close> whose alias
  \<open>status\<close> is also the name of a built-in command, and a short run of registry calls.
\<close>

definition kick_handler :: command_handler where
  "kick_handler =
     snd (register_command example_handler (u ''kick'') pong_handler [] [] None 1)"

definition kick_invocation :: parsed where
  "kick_invocation =
     \<lparr>is_command = True, valid = Some True, command_name = Some (u ''kick''),
      original_name = Some (u ''kick''), args = Some [], raw_args = Some [], error = None\<rparr>"

definition test_invocation :: parsed where
  "test_invocation =
     \<lparr>is_command = True, valid = Some True, command_name = Some (u ''test''),
      original_name = Some (u ''test''), args = Some [], raw_args = Some [], error = None\<rparr>"

definition super_admin_only :: "user_info option" where
  "super_admin_only =
     Some [(u ''is_admin'', PyBool False), (u ''is_super_admin'', PyBool True)]"



definition ping_status_handler :: command_handler where
  "ping_status_handler =
     snd (register_command example_handler (u ''ping'') pong_handler [] []
            (Some [u ''status'']) 0)"

definition example_ops :: "registry_op list" where
  "example_ops =
     [Register (u ''ping'') pong_handler [] [] (Some [u ''h'', u ''p'']) 0,
      Unregister (u ''help''),
      Unregister (u ''nope'')]"

section \<open>Facts about the string functions\<close>

lemma strip_Nil_iff: "strip s = [] \<longleftrightarrow> (\<forall>c \<in> set s. isspace c)"
proof -
  have "strip s = [] \<longleftrightarrow> dropWhile isspace (rev (dropWhile isspace s)) = []"
    by (simp add: strip_def)
  also have "\<dots> \<longleftrightarrow> (\<forall>c \<in> set (dropWhile isspace s). isspace c)"
    by simp
  also have "\<dots> \<longleftrightarrow> (\<forall>c \<in> set s. isspace c)"
  proof
    assume a: "\<forall>c \<in> set (dropWhile isspace s). isspace c"
    show "\<forall>c \<in> set s. isspace c"
    proof
      fix c assume "c \<in> set s"
      then have "c \<in> set (takeWhile isspace s) \<or> c \<in> set (dropWhile isspace s)"
        by (metis Un_iff set_append takeWhile_dropWhile_id)
      then show "isspace c" using a by (auto dest: set_takeWhileD)
    qed
  next
    assume "\<forall>c \<in> set s. isspace c"
    then show "\<forall>c \<in> set (dropWhile isspace s). isspace c"
      by (auto dest: set_dropWhileD)
  qed
  finally show ?thesis .
qed

lemma split_acc_Nil_iff: "split_acc cur s = [] \<longleftrightarrow> cur = [] \<and> (\<forall>c \<in> set s. isspace c)"
  by (induction s arbitrary: cur) auto

lemma split_ws_Nil_iff: "split s = [] \<longleftrightarrow> (\<forall>c \<in> set s. isspace c)"
  by (simp add: split_def split_acc_Nil_iff)

lemma strip_strip_nonempty: "strip s \<noteq> [] \<Longrightarrow> strip (strip s) \<noteq> []"
  by (simp add: strip_def) (metis dropWhile_eq_Nil_conv dropWhile_idem rev_rev_ident set_rev)

lemma split_strip_nonempty: "strip s \<noteq> [] \<Longrightarrow> split (strip s) \<noteq> []"
  using strip_strip_nonempty [of s] by (simp add: split_ws_Nil_iff strip_Nil_iff)

text \<open>
  \<open>parse_command\<close> in its three cases: not a command, a first token that does not
  resolve to a registered command, and a registered command. The \<open>IndexError\<close> branch
  of \<open>parts[0]\<close> is never taken.
\<close>

lemma parse_command_not_command:
  "\<not> (startswith message (command_prefix st) \<and>
       strip (drop (length (command_prefix st)) message) \<noteq> [])
   \<Longrightarrow> parse_command py st message = Inr not_a_command"
  by (auto simp: parse_command_def Let_def)

lemma parse_command_first_token:
  assumes "startswith message (command_prefix st)"
    and "strip (drop (length (command_prefix st)) message) \<noteq> []"
  shows "\<exists>p ps. split (strip (drop (length (command_prefix st)) message)) = p # ps"
  using split_strip_nonempty [OF assms(2)] by (metis list.exhaust)

lemma parse_command_token:
  assumes "startswith message (command_prefix st)"
    and "split (strip (drop (length (command_prefix st)) message)) = p # ps"
  shows "parse_command py st message =
     (if commands st (resolve st (str_lower py p)) = None then
        Inr \<lparr>is_command = True, valid = Some False, command_name = Some (str_lower py p),
             original_name = None, args = None, raw_args = None,
             error = Some (unknown_command_msg (str_lower py p))\<rparr>
      else
        Inr \<lparr>is_command = True, valid = Some True,
             command_name = Some (resolve st (str_lower py p)),
             original_name = Some (str_lower py p),
             args = Some ps, raw_args = Some (join [0x20] ps), error = None\<rparr>)"
proof -
  have "strip (drop (length (command_prefix st)) message) \<noteq> []"
    using assms(2) by (auto simp: split_def)
  then show ?thesis using assms
    by (simp add: parse_command_def Let_def resolve_def)
qed

section \<open>The structural invariant of a parsed invocation\<close>

text \<open>
  Claim C6. For every message and every registry state, \<open>parse_command\<close> returns a
  dictionary (it never raises), and in it \<open>valid = True\<close> implies \<open>is_command = True\<close>,
  and a present \<open>error\<close> implies \<open>is_command = True\<close> and \<open>valid = False\<close>.
\<close>

theorem parse_command_invariant:
  "\<exists>p. parse_command py st message = Inr p \<and>
       (valid p = Some True \<longrightarrow> is_command p) \<and>
       (error p \<noteq> None \<longrightarrow> is_command p \<and> valid p = Some False)"
proof (cases "startswith message (command_prefix st) \<and>
              strip (drop (length (command_prefix st)) message) \<noteq> []")
  case False
  then have "parse_command py st message = Inr not_a_command"
    by (rule parse_command_not_command)
  then show ?thesis by (simp add: not_a_command_def)
next
  case True
  then obtain p ps where
    "split (strip (drop (length (command_prefix st)) message)) = p # ps"
    using parse_command_first_token by blast
  with True show ?thesis
    by (simp add: parse_command_token)
qed

text \<open>
  The invariant at \<open>!nope\<close> on a freshly constructed handler: the error is present, and
  the result is a command that is not valid.
\<close>

theorem parse_command_invariant_witness:
  "\<exists>p. parse_command ascii_builtins example_handler (u ''!nope'') = Inr p \<and> error p \<noteq> None
      \<and> is_command p \<and> valid p = Some False"
proof -
  have e: "parse_command ascii_builtins example_handler (u ''!nope'') =
     Inr \<lparr>is_command = True, valid = Some False, command_name = Some (u ''nope''),
          original_name = None, args = None, raw_args = None,
          error = Some (unknown_command_msg (u ''nope''))\<rparr>"
    by (simp add: example_handler_def init_def register_builtin_commands_def register_command_def
       parse_command_def u_def startswith_def strip_def isspace_def split_def ascii_builtins_def
       ascii_lower_def Let_def)
  from parse_command_invariant [of ascii_builtins example_handler "u ''!nope''"]
  show ?thesis using e by auto
qed

section \<open>Facts about the registry\<close>

lemma foldl_alias_upd:
  "foldl (\<lambda>m a. m(a \<mapsto> name)) m l x = (if x \<in> set l then Some name else m x)"
  by (induction l arbitrary: m) auto

lemma register_command_fields:
  "fst (register_command st name f descr usg als lvl) = True"
  "command_prefix (snd (register_command st name f descr usg als lvl)) = command_prefix st"
  "commands (snd (register_command st name f descr usg als lvl)) =
     (commands st)(name \<mapsto>
        \<lparr>func = f, description = descr, usage = usg, permission_level = lvl\<rparr>)"
  "permissions (snd (register_command st name f descr usg als lvl)) =
     (permissions st)(name \<mapsto> lvl)"
  "aliases (snd (register_command st name f descr usg als lvl)) a =
     (if a \<in> set (alias_list als) then Some name else aliases st a)"
  by (simp_all add: register_command_def Let_def foldl_alias_upd alias_list_def
      split: option.splits)

lemma registry_invD:
  assumes "registry_inv st"
  shows "aliases st a = Some n \<Longrightarrow> commands st n \<noteq> None"
    and "commands st n = None \<longleftrightarrow> permissions st n = None"
proof -
  from assms have 1: "\<forall>a n. aliases st a = Some n \<longrightarrow> n \<in> dom (commands st)"
    and 2: "dom (commands st) = dom (permissions st)"
    unfolding registry_inv_def by blast+
  from 1 show "aliases st a = Some n \<Longrightarrow> commands st n \<noteq> None" by blast
  from 2 show "commands st n = None \<longleftrightarrow> permissions st n = None"
    by (metis domIff)
qed

lemma registry_invI:
  assumes "\<And>a n. aliases st a = Some n \<Longrightarrow> commands st n \<noteq> None"
    and "\<And>n. commands st n = None \<longleftrightarrow> permissions st n = None"
  shows "registry_inv st"
proof -
  have "dom (commands st) = dom (permissions st)"
    using assms(2) by (auto simp: dom_def)
  moreover have "\<forall>a n. aliases st a = Some n \<longrightarrow> n \<in> dom (commands st)"
    using assms(1) by (auto simp: dom_def)
  ultimately show ?thesis unfolding registry_inv_def by blast
qed

lemma register_command_inv:
  assumes "registry_inv st"
  shows "registry_inv (snd (register_command st name f descr usg als lvl))"
proof (rule registry_invI)
  fix a n
  assume "aliases (snd (register_command st name f descr usg als lvl)) a = Some n"
  then have "n = name \<or> aliases st a = Some n"
    by (simp add: register_command_fields split: if_splits)
  then show "commands (snd (register_command st name f descr usg als lvl)) n \<noteq> None"
    using registry_invD(1) [OF assms] by (auto simp: register_command_fields)
next
  fix n
  show "commands (snd (register_command st name f descr usg als lvl)) n = None \<longleftrightarrow>
        permissions (snd (register_command st name f descr usg als lvl)) n = None"
    using registry_invD(2) [OF assms, of n] by (simp add: register_command_fields)
qed

lemma unregister_command_fields:
  assumes "commands st name \<noteq> None" and "permissions st name \<noteq> None"
  shows "fst (unregister_command st name) = True"
    and "command_prefix (snd (unregister_command st name)) = command_prefix st"
    and "commands (snd (unregister_command st name)) = (commands st)(name := None)"
    and "permissions (snd (unregister_command st name)) = (permissions st)(name := None)"
    and "aliases (snd (unregister_command st name)) a =
           (if aliases st a = Some name then None else aliases st a)"
  using assms by (auto simp: unregister_command_def Let_def)

lemma unregister_command_unknown:
  "commands st name = None \<Longrightarrow> unregister_command st name = (False, st)"
  by (simp add: unregister_command_def)

lemma unregister_command_inv:
  assumes "registry_inv st"
  shows "registry_inv (snd (unregister_command st name))"
proof (cases "commands st name = None")
  case True
  with assms show ?thesis by (simp add: unregister_command_unknown)
next
  case False
  then have p: "permissions st name \<noteq> None"
    using registry_invD(2) [OF assms, of name] by simp
  show ?thesis
  proof (rule registry_invI)
    fix a n
    assume "aliases (snd (unregister_command st name)) a = Some n"
    then have "aliases st a = Some n" "n \<noteq> name"
      by (auto simp: unregister_command_fields [OF False p] split: if_splits)
    then show "commands (snd (unregister_command st name)) n \<noteq> None"
      using registry_invD(1) [OF assms] by (simp add: unregister_command_fields [OF False p])
  next
    fix n
    show "commands (snd (unregister_command st name)) n = None \<longleftrightarrow>
          permissions (snd (unregister_command st name)) n = None"
      using registry_invD(2) [OF assms, of n] by (simp add: unregister_command_fields [OF False p])
  qed
qed

lemma init_inv: "registry_inv (init prefix help_command status_command test_command)"
proof -
  have "registry_inv \<lparr>command_prefix = prefix, commands = Map.empty, aliases = Map.empty,
        permissions = Map.empty\<rparr>"
    by (simp add: registry_inv_def)
  then show ?thesis
    unfolding init_def register_builtin_commands_def Let_def
    by (intro register_command_inv)
qed

lemma apply_op_inv: "registry_inv st \<Longrightarrow> registry_inv (apply_op st op)"
  by (cases op) (simp_all add: register_command_inv unregister_command_inv)

lemma run_ops_inv: "registry_inv st \<Longrightarrow> registry_inv (run_ops st ops)"
  unfolding run_ops_def by (induction ops arbitrary: st) (simp_all add: apply_op_inv)

lemma example_handler_lookup:
  "commands example_handler (u ''help'') \<noteq> None"
  "permissions example_handler (u ''help'') = Some 0"
  "commands example_handler (u ''test'') \<noteq> None"
  "permissions example_handler (u ''test'') = Some 0"
  "commands example_handler (u ''nope'') = None"
  "aliases example_handler (u ''h'') = Some (u ''help'')"
  "aliases example_handler (u ''stat'') = Some (u ''status'')"
  by (simp_all add: example_handler_def init_def register_builtin_commands_def
      register_command_fields Let_def u_def alias_list_def)

lemma example_handler_inv: "registry_inv example_handler"
  unfolding example_handler_def by (rule init_inv)

lemma contains_startswith: "startswith s t \<Longrightarrow> contains s t"
  by (cases s) (simp_all add: startswith_def)

lemma contains_append: "contains (a @ b @ c) b"
proof (induction a)
  case Nil
  show ?case by (rule contains_startswith) (simp add: startswith_def)
next
  case (Cons x a)
  then show ?case by simp
qed

lemma execute_command_denied:
  "valid command_info = Some True \<Longrightarrow> command_name command_info = Some cname \<Longrightarrow>
   \<not> check_permission st cname user \<Longrightarrow>
   execute_command py st command_info user = Inr permission_denied_msg"
  by (simp add: execute_command_def)

lemma check_permission_level:
  "permissions st cname = Some lvl \<Longrightarrow>
   check_permission st cname user \<longleftrightarrow>
     lvl = 0 \<or> (lvl = 1 \<and> caller_flag user (u ''is_admin'')) \<or>
     (lvl = 2 \<and> caller_flag user (u ''is_super_admin''))"
  by (auto simp: check_permission_def caller_flag_def dict_get_def split: option.splits)

section \<open>Permission gating\<close>

text \<open>
  Claim C1. For a registered command, the permission check passes at tier 0 always, at
  tier 1 exactly when a caller is supplied whose \<open>is_admin\<close> flag is true, and at tier 2
  exactly when a caller is supplied whose \<open>is_super_admin\<close> flag is true (so the
  super-admin flag alone does not pass tier 1). Without a caller the check passes only
  at tier 0. Whenever the check fails on a valid invocation, \<open>execute_command\<close> returns
  the fixed permission-denied text.
\<close>

theorem permission_gating:
  "(permissions st cname = Some 0 \<longrightarrow> check_permission st cname user) \<and>
   (permissions st cname = Some 1 \<longrightarrow>
      (check_permission st cname user \<longleftrightarrow> caller_flag user (u ''is_admin''))) \<and>
   (permissions st cname = Some 2 \<longrightarrow>
      (check_permission st cname user \<longleftrightarrow> caller_flag user (u ''is_super_admin''))) \<and>
   (check_permission st cname None \<longleftrightarrow> permissions st cname = Some 0) \<and>
   (valid command_info = Some True \<and> command_name command_info = Some cname \<and>
    \<not> check_permission st cname user \<longrightarrow>
      execute_command py st command_info user = Inr permission_denied_msg)"
proof (intro conjI impI)
  show "check_permission st cname None \<longleftrightarrow> permissions st cname = Some 0"
    by (auto simp: check_permission_def split: option.splits)
qed (simp_all add: check_permission_level execute_command_denied)

text \<open>
  A caller with \<open>is_super_admin = True\<close> and \<open>is_admin = False\<close> is rejected by the
  tier-1 command \<open>kick\<close>.
\<close>

theorem permission_gating_witness:
  "permissions kick_handler (u ''kick'') = Some 1 \<and>
   \<not> caller_flag super_admin_only (u ''is_admin'') \<and>
   caller_flag super_admin_only (u ''is_super_admin'') \<and>
   \<not> check_permission kick_handler (u ''kick'') super_admin_only \<and>
   valid kick_invocation = Some True \<and> command_name kick_invocation = Some (u ''kick'') \<and>
   execute_command ascii_builtins kick_handler kick_invocation super_admin_only =
     Inr permission_denied_msg"
proof -
  have p: "permissions kick_handler (u ''kick'') = Some 1"
    by (simp add: kick_handler_def register_command_def)
  have f: "\<not> caller_flag super_admin_only (u ''is_admin'')"
    "caller_flag super_admin_only (u ''is_super_admin'')"
    by (simp_all add: caller_flag_def super_admin_only_def dict_get_def u_def)
  have v: "valid kick_invocation = Some True" "command_name kick_invocation = Some (u ''kick'')"
    by (simp_all add: kick_invocation_def)
  note g = permission_gating [of kick_handler "u ''kick''" super_admin_only kick_invocation
      ascii_builtins]
  from g p f have c: "\<not> check_permission kick_handler (u ''kick'') super_admin_only"
    by blast
  with g v have "execute_command ascii_builtins kick_handler kick_invocation super_admin_only =
     Inr permission_denied_msg" by blast
  with p f v c show ?thesis by blast
qed

section \<open>Containment of handler failures\<close>




section \<open>Registration\<close>

text \<open>
  Claim C3, as amended. \<open>register_command\<close> checks neither the name nor the permission
  level: every call succeeds, also with an empty name or a level outside 0, 1, 2. It
  stores the definition and the level under the name, overwriting what was there, points
  every given alias to the name, and changes nothing else.
\<close>

theorem register_command_always_succeeds:
  "fst (register_command st name f descr usg als lvl) \<and>
   commands (snd (register_command st name f descr usg als lvl)) name =
     Some \<lparr>func = f, description = descr, usage = usg, permission_level = lvl\<rparr> \<and>
   permissions (snd (register_command st name f descr usg als lvl)) name = Some lvl \<and>
   (\<forall>a \<in> set (alias_list als).
      aliases (snd (register_command st name f descr usg als lvl)) a = Some name) \<and>
   (\<forall>n. n \<noteq> name \<longrightarrow>
      commands (snd (register_command st name f descr usg als lvl)) n = commands st n \<and>
      permissions (snd (register_command st name f descr usg als lvl)) n = permissions st n) \<and>
   (\<forall>a. a \<notin> set (alias_list als) \<longrightarrow>
      aliases (snd (register_command st name f descr usg als lvl)) a = aliases st a) \<and>
   command_prefix (snd (register_command st name f descr usg als lvl)) = command_prefix st"
  by (simp add: register_command_fields)

text \<open>A registration with the empty name and level 5, on the fresh handler.\<close>

theorem register_command_always_succeeds_witness:
  "u ''e'' \<in> set (alias_list (Some [u ''e''])) \<and> u ''help'' \<noteq> [] \<and>
   u ''h'' \<notin> set (alias_list (Some [u ''e''])) \<and>
   fst (register_command example_handler [] pong_handler [] [] (Some [u ''e'']) 5) \<and>
   permissions (snd (register_command example_handler [] pong_handler [] [] (Some [u ''e'']) 5)) []
     = Some 5 \<and>
   aliases (snd (register_command example_handler [] pong_handler [] [] (Some [u ''e'']) 5))
     (u ''e'') = Some [] \<and>
   aliases (snd (register_command example_handler [] pong_handler [] [] (Some [u ''e'']) 5))
     (u ''h'') = Some (u ''help'') \<and>
   permissions (snd (register_command example_handler [] pong_handler [] [] (Some [u ''e'']) 5))
     (u ''help'') = Some 0"
proof -
  have h: "u ''e'' \<in> set (alias_list (Some [u ''e'']))"
    "u ''help'' \<noteq> []" "u ''h'' \<notin> set (alias_list (Some [u ''e'']))"
    by (simp_all add: u_def alias_list_def)
  note t = register_command_always_succeeds [of example_handler "[]" pong_handler "[]" "[]"
      "Some [u ''e'']" 5]
  from t h example_handler_lookup show ?thesis by metis
qed

text \<open>
  Against claim C3 as stated: the registration with an empty name and level 5 succeeds
  and the command is in the registry afterwards.
\<close>

theorem register_command_unchecked_counterexample:
  "fst (register_command example_handler [] pong_handler [] [] None 5) \<and>
   commands (snd (register_command example_handler [] pong_handler [] [] None 5)) [] \<noteq> None \<and>
   permissions (snd (register_command example_handler [] pong_handler [] [] None 5)) [] = Some 5"
  by (simp add: register_command_def)

section \<open>Consistency of the registry\<close>

text \<open>
  Claim C9. After construction and any sequence of \<open>register_command\<close> and
  \<open>unregister_command\<close> calls, every alias points to a registered command, and the
  command and permission dictionaries have the same keys.
\<close>

theorem registry_consistency:
  "registry_inv (run_ops (init prefix help_command status_command test_command) ops)"
  by (rule run_ops_inv) (rule init_inv)

text \<open>
  After registering \<open>ping\<close> with the alias \<open>h\<close> taken over from \<open>help\<close>, then
  unregistering \<open>help\<close> and an unknown name, \<open>h\<close> points to \<open>ping\<close>, which is registered.
\<close>

theorem registry_consistency_witness:
  "aliases (run_ops (init (u ''!'') pong_handler pong_handler failing_handler) example_ops)
     (u ''h'') = Some (u ''ping'') \<and>
   u ''ping'' \<in> dom (commands
     (run_ops (init (u ''!'') pong_handler pong_handler failing_handler) example_ops)) \<and>
   dom (commands (run_ops (init (u ''!'') pong_handler pong_handler failing_handler) example_ops)) =
   dom (permissions (run_ops (init (u ''!'') pong_handler pong_handler failing_handler) example_ops))"
proof -
  let ?st = "run_ops (init (u ''!'') pong_handler pong_handler failing_handler) example_ops"
  have a: "aliases ?st (u ''h'') = Some (u ''ping'')"
    by (simp add: run_ops_def example_ops_def init_def register_builtin_commands_def
        register_command_def unregister_command_def Let_def u_def)
  have i: "registry_inv ?st" by (rule registry_consistency)
  from i a have "u ''ping'' \<in> dom (commands ?st)"
    unfolding registry_inv_def by blast
  moreover from i have "dom (commands ?st) = dom (permissions ?st)"
    unfolding registry_inv_def by blast
  ultimately show ?thesis using a by blast
qed

section \<open>Stale invocations\<close>

text \<open>
  Claim C10. In a consistent registry, a valid invocation whose command name is not
  registered is denied: \<open>execute_command\<close> does not raise and returns the fixed
  permission-denied text, whatever the command dictionary holds (it is not read).
\<close>

theorem stale_invocation_denied:
  assumes "registry_inv st"
    and "valid command_info = Some True"
    and "command_name command_info = Some cname"
    and "commands st cname = None"
  shows "execute_command py st command_info user = Inr permission_denied_msg \<and>
         \<not> check_permission st cname user \<and>
         (\<forall>cmds. execute_command py (st\<lparr>commands := cmds\<rparr>) command_info user =
            Inr permission_denied_msg)"
proof -
  from assms(1,4) have "permissions st cname = None"
    by (auto simp: registry_inv_def)
  then have "\<And>cmds. \<not> check_permission (st\<lparr>commands := cmds\<rparr>) cname user"
    "\<not> check_permission st cname user"
    by (simp_all add: check_permission_def)
  with assms(2,3) show ?thesis
    by (simp add: execute_command_def)
qed

text \<open>The built-in \<open>test\<close>, unregistered after it was parsed.\<close>

theorem stale_invocation_denied_witness:
  "registry_inv (snd (unregister_command example_handler (u ''test''))) \<and>
   valid test_invocation = Some True \<and> command_name test_invocation = Some (u ''test'') \<and>
   commands (snd (unregister_command example_handler (u ''test''))) (u ''test'') = None \<and>
   execute_command ascii_builtins (snd (unregister_command example_handler (u ''test'')))
     test_invocation None = Inr permission_denied_msg"
proof -
  have i: "registry_inv (snd (unregister_command example_handler (u ''test'')))"
    by (rule unregister_command_inv) (rule example_handler_inv)
  have v: "valid test_invocation = Some True"
    "command_name test_invocation = Some (u ''test'')"
    by (simp_all add: test_invocation_def)
  have c: "commands (snd (unregister_command example_handler (u ''test''))) (u ''test'') = None"
    using example_handler_lookup(3,4) by (simp add: unregister_command_fields)
  from stale_invocation_denied [OF i v c, of ascii_builtins None] i v c
  show ?thesis by blast
qed

section \<open>Further facts about parsing and the fresh handler\<close>

lemma example_handler_prefix: "command_prefix example_handler = u ''!''"
  by (simp add: example_handler_def init_def register_builtin_commands_def
      register_command_fields Let_def)

lemma example_handler_nope: "resolve example_handler (u ''nope'') = u ''nope''"
  by (simp add: resolve_def example_handler_def init_def register_builtin_commands_def
      register_command_fields Let_def u_def alias_list_def)

lemma parse_command_is_command:
  "\<exists>p. parse_command py st message = Inr p \<and>
       (is_command p \<longleftrightarrow>
          startswith message (command_prefix st) \<and>
          strip (drop (length (command_prefix st)) message) \<noteq> [])"
proof (cases "startswith message (command_prefix st) \<and>
              strip (drop (length (command_prefix st)) message) \<noteq> []")
  case False
  then have "parse_command py st message = Inr not_a_command"
    by (rule parse_command_not_command)
  with False show ?thesis by (simp add: not_a_command_def)
next
  case True
  then obtain p ps where
    "split (strip (drop (length (command_prefix st)) message)) = p # ps"
    using parse_command_first_token by blast
  with True show ?thesis
    by (simp add: parse_command_token)
qed

section \<open>Unregistering a command\<close>

text \<open>
  Claim C7, as amended. \<open>unregister_command\<close> returns \<open>False\<close> and leaves the handler unchanged
  when the name is not registered. On a registered name, in a consistent registry, it
  returns \<open>True\<close>, removes the definition and its permission entry, and removes every
  alias that pointed to the name: such an alias is no longer in the alias dictionary
  and resolving it gives the token itself, which is a registered command afterwards
  exactly when the token is itself the name of another registered command; no alias
  points to the removed name, every alias left points to a registered command, and
  all other entries are unchanged.
\<close>

theorem unregister_command_effect:
  "(commands st name = None \<longrightarrow> unregister_command st name = (False, st)) \<and>
   (registry_inv st \<and> commands st name \<noteq> None \<longrightarrow>
      fst (unregister_command st name) \<and>
      commands (snd (unregister_command st name)) name = None \<and>
      permissions (snd (unregister_command st name)) name = None \<and>
      (\<forall>a. aliases st a = Some name \<longrightarrow>
         aliases (snd (unregister_command st name)) a = None \<and>
         resolve (snd (unregister_command st name)) a = a \<and>
         (commands (snd (unregister_command st name))
            (resolve (snd (unregister_command st name)) a) \<noteq> None \<longleftrightarrow>
          a \<noteq> name \<and> commands st a \<noteq> None)) \<and>
      (\<forall>a. aliases (snd (unregister_command st name)) a \<noteq> Some name) \<and>
      (\<forall>a n. aliases (snd (unregister_command st name)) a = Some n \<longrightarrow>
         commands (snd (unregister_command st name)) n \<noteq> None) \<and>
      (\<forall>n. n \<noteq> name \<longrightarrow>
         commands (snd (unregister_command st name)) n = commands st n \<and>
         permissions (snd (unregister_command st name)) n = permissions st n) \<and>
      (\<forall>a. aliases st a \<noteq> Some name \<longrightarrow>
         aliases (snd (unregister_command st name)) a = aliases st a))"
proof (intro conjI impI)
  assume "commands st name = None"
  then show "unregister_command st name = (False, st)"
    by (rule unregister_command_unknown)
next
  assume h: "registry_inv st \<and> commands st name \<noteq> None"
  then have c: "commands st name \<noteq> None" and i: "registry_inv st" by simp_all
  from c have p: "permissions st name \<noteq> None"
    using registry_invD(2) [OF i, of name] by simp
  note f = unregister_command_fields [OF c p]
  show "fst (unregister_command st name)" by (simp add: f)
  show "commands (snd (unregister_command st name)) name = None" by (simp add: f)
  show "permissions (snd (unregister_command st name)) name = None" by (simp add: f)
  show "\<forall>a. aliases st a = Some name \<longrightarrow>
         aliases (snd (unregister_command st name)) a = None \<and>
         resolve (snd (unregister_command st name)) a = a \<and>
         (commands (snd (unregister_command st name))
            (resolve (snd (unregister_command st name)) a) \<noteq> None \<longleftrightarrow>
          a \<noteq> name \<and> commands st a \<noteq> None)"
    by (simp add: f resolve_def)
  show "\<forall>a. aliases (snd (unregister_command st name)) a \<noteq> Some name" by (simp add: f)
  show "\<forall>a n. aliases (snd (unregister_command st name)) a = Some n \<longrightarrow>
         commands (snd (unregister_command st name)) n \<noteq> None"
    using registry_invD(1) [OF unregister_command_inv [OF i, of name] ] by blast
  show "\<forall>n. n \<noteq> name \<longrightarrow>
         commands (snd (unregister_command st name)) n = commands st n \<and>
         permissions (snd (unregister_command st name)) n = permissions st n"
    by (simp add: f)
  show "\<forall>a. aliases st a \<noteq> Some name \<longrightarrow>
         aliases (snd (unregister_command st name)) a = aliases st a"
    by (simp add: f)
qed

text \<open>
  On the fresh handler: \<open>nope\<close> is unknown and nothing changes; \<open>help\<close> is removed
  together with its alias \<open>h\<close>.
\<close>

theorem unregister_command_effect_witness:
  "commands example_handler (u ''nope'') = None \<and>
   unregister_command example_handler (u ''nope'') = (False, example_handler) \<and>
   registry_inv example_handler \<and> commands example_handler (u ''help'') \<noteq> None \<and>
   aliases example_handler (u ''h'') = Some (u ''help'') \<and>
   fst (unregister_command example_handler (u ''help'')) \<and>
   commands (snd (unregister_command example_handler (u ''help''))) (u ''help'') = None \<and>
   aliases (snd (unregister_command example_handler (u ''help''))) (u ''h'') = None \<and>
   resolve (snd (unregister_command example_handler (u ''help''))) (u ''h'') = u ''h'' \<and>
   (commands (snd (unregister_command example_handler (u ''help'')))
      (resolve (snd (unregister_command example_handler (u ''help''))) (u ''h'')) \<noteq> None \<longleftrightarrow>
    u ''h'' \<noteq> u ''help'' \<and> commands example_handler (u ''h'') \<noteq> None)"
proof -
  note n = unregister_command_effect [of example_handler "u ''nope''"]
  note h = unregister_command_effect [of example_handler "u ''help''"]
  from n example_handler_lookup(5)
  have 1: "unregister_command example_handler (u ''nope'') = (False, example_handler)"
    by blast
  from h example_handler_inv example_handler_lookup(1)
  have 2: "fst (unregister_command example_handler (u ''help''))"
    "commands (snd (unregister_command example_handler (u ''help''))) (u ''help'') = None"
    "\<forall>a. aliases example_handler a = Some (u ''help'') \<longrightarrow>
         aliases (snd (unregister_command example_handler (u ''help''))) a = None \<and>
         resolve (snd (unregister_command example_handler (u ''help''))) a = a \<and>
         (commands (snd (unregister_command example_handler (u ''help'')))
            (resolve (snd (unregister_command example_handler (u ''help''))) a) \<noteq> None \<longleftrightarrow>
          a \<noteq> u ''help'' \<and> commands example_handler a \<noteq> None)"
    by blast+
  from 2(3) example_handler_lookup(6)
  have 3: "aliases (snd (unregister_command example_handler (u ''help''))) (u ''h'') = None"
    "resolve (snd (unregister_command example_handler (u ''help''))) (u ''h'') = u ''h''"
    "commands (snd (unregister_command example_handler (u ''help'')))
      (resolve (snd (unregister_command example_handler (u ''help''))) (u ''h'')) \<noteq> None \<longleftrightarrow>
     u ''h'' \<noteq> u ''help'' \<and> commands example_handler (u ''h'') \<noteq> None"
    by blast+
  from 1 2 3 example_handler_inv example_handler_lookup show ?thesis by blast
qed

text \<open>
  Against claim C7 as stated: \<open>ping\<close> is registered with the alias \<open>status\<close>, which is
  also the name of a built-in command. After \<open>ping\<close> is unregistered, the alias that
  pointed to it resolves to \<open>status\<close>, a command that is still defined.
\<close>

theorem unregister_alias_shadow_counterexample:
  "aliases ping_status_handler (u ''status'') = Some (u ''ping'') \<and>
   fst (unregister_command ping_status_handler (u ''ping'')) \<and>
   resolve (snd (unregister_command ping_status_handler (u ''ping''))) (u ''status'') =
     u ''status'' \<and>
   commands (snd (unregister_command ping_status_handler (u ''ping'')))
     (resolve (snd (unregister_command ping_status_handler (u ''ping''))) (u ''status'')) \<noteq> None"
  by (simp add: ping_status_handler_def example_handler_def init_def
      register_builtin_commands_def register_command_def unregister_command_def resolve_def
      Let_def u_def)

section \<open>When a message is a command\<close>

text \<open>
  Claim C4, as amended. \<open>is_command\<close> is true exactly when the message itself, not
  trimmed, starts with the prefix and what follows the prefix holds a character that is
  not whitespace (it is not empty after trimming).
\<close>

theorem is_command_condition:
  "\<exists>p. parse_command py st message = Inr p \<and>
       (is_command p \<longleftrightarrow>
          startswith message (command_prefix st) \<and>
          (\<exists>c \<in> set (drop (length (command_prefix st)) message). \<not> isspace c))"
  using parse_command_is_command [of py st message] by (simp add: strip_Nil_iff)

text \<open>The message \<open>! help\<close>, with a space after the prefix, is a command.\<close>

theorem is_command_condition_witness:
  "0x68 \<in> set (drop (length (command_prefix example_handler)) (u ''! help'')) \<and> \<not> isspace 0x68 \<and>
   startswith (u ''! help'') (command_prefix example_handler) \<and>
   (\<exists>p. parse_command ascii_builtins example_handler (u ''! help'') = Inr p \<and> is_command p)"
proof -
  have pre: "command_prefix example_handler = u ''!''"
    by (simp add: example_handler_def init_def register_builtin_commands_def
        register_command_fields Let_def)
  have 1: "0x68 \<in> set (drop (length (command_prefix example_handler)) (u ''! help''))"
    "\<not> isspace 0x68" "startswith (u ''! help'') (command_prefix example_handler)"
    by (simp_all add: pre u_def isspace_def startswith_def)
  from is_command_condition [of ascii_builtins example_handler "u ''! help''"] 1
  have "\<exists>p. parse_command ascii_builtins example_handler (u ''! help'') = Inr p \<and> is_command p"
    by blast
  with 1 show ?thesis by blast
qed

text \<open>
  Against claim C4 as stated: the message \<open> !help\<close> with a leading space satisfies
  the condition on the trimmed message, and \<open>parse_command\<close> says it is not a command.
\<close>

theorem is_command_trimmed_counterexample:
  "spec_is_command (command_prefix example_handler) (u '' !help'') \<and>
   parse_command ascii_builtins example_handler (u '' !help'') = Inr not_a_command \<and>
   \<not> is_command not_a_command"
proof -
  have pre: "command_prefix example_handler = u ''!''"
    by (simp add: example_handler_def init_def register_builtin_commands_def
        register_command_fields Let_def)
  have "\<not> startswith (u '' !help'') (u ''!'')" by (simp add: startswith_def u_def)
  then have "parse_command ascii_builtins example_handler (u '' !help'') = Inr not_a_command"
    by (simp add: parse_command_not_command pre)
  moreover have "spec_is_command (u ''!'') (u '' !help'')"
    by (simp add: spec_is_command_def strip_def startswith_def u_def isspace_def)
  ultimately show ?thesis by (simp add: pre not_a_command_def)
qed

section \<open>The error for an unknown command\<close>

text \<open>
  Claim C5, as amended. For a prefixed message whose first token, lower-cased and
  resolved through the aliases, is not a registered command, \<open>parse_command\<close> returns
  \<open>valid = False\<close> and an error text that names the lower-cased first token (not the
  token as typed, and not the resolved name). For \<open>!unknown\<close> on a fresh handler the
  error text contains \<open>unknown\<close>.
\<close>

theorem unknown_command_error:
  "(startswith message (command_prefix st) \<and>
    split (strip (drop (length (command_prefix st)) message)) = p # ps \<and>
    commands st (resolve st (str_lower py p)) = None \<longrightarrow>
      (\<exists>r. parse_command py st message = Inr r \<and> is_command r \<and> valid r = Some False \<and>
           command_name r = Some (str_lower py p) \<and>
           error r = Some (unknown_command_msg (str_lower py p)) \<and>
           contains (unknown_command_msg (str_lower py p)) (str_lower py p))) \<and>
   (\<exists>r. parse_command ascii_builtins (init (u ''!'') help_command status_command test_command)
          (u ''!unknown'') = Inr r \<and>
        valid r = Some False \<and>
        error r = Some (unknown_command_msg (u ''unknown'')) \<and>
        contains (unknown_command_msg (u ''unknown'')) (u ''unknown''))"
proof (intro conjI impI)
  have c: "contains (unknown_command_msg t) t" for t
    using contains_append [of "[0x672a, 0x77e5, 0x547d, 0x4ee4, 0x3a, 0x20]" t "[]"]
    by (simp add: unknown_command_msg_def)
  {
    assume "startswith message (command_prefix st) \<and>
      split (strip (drop (length (command_prefix st)) message)) = p # ps \<and>
      commands st (resolve st (str_lower py p)) = None"
    then show "\<exists>r. parse_command py st message = Inr r \<and> is_command r \<and> valid r = Some False \<and>
           command_name r = Some (str_lower py p) \<and>
           error r = Some (unknown_command_msg (str_lower py p)) \<and>
           contains (unknown_command_msg (str_lower py p)) (str_lower py p)"
      by (simp add: parse_command_token c)
  }
  have "parse_command ascii_builtins (init (u ''!'') help_command status_command test_command)
          (u ''!unknown'') =
     Inr \<lparr>is_command = True, valid = Some False, command_name = Some (u ''unknown''),
          original_name = None, args = None, raw_args = None,
          error = Some (unknown_command_msg (u ''unknown''))\<rparr>"
    by (simp add: init_def register_builtin_commands_def register_command_def
       parse_command_def u_def startswith_def strip_def isspace_def split_def ascii_builtins_def
       ascii_lower_def Let_def)
  then show "\<exists>r. parse_command ascii_builtins (init (u ''!'') help_command status_command test_command)
          (u ''!unknown'') = Inr r \<and>
        valid r = Some False \<and>
        error r = Some (unknown_command_msg (u ''unknown'')) \<and>
        contains (unknown_command_msg (u ''unknown'')) (u ''unknown'')"
    by (simp add: c)
qed

text \<open>The message \<open>!Nope x\<close> on the fresh handler: the error names \<open>nope\<close>.\<close>

theorem unknown_command_error_witness:
  "startswith (u ''!Nope x'') (command_prefix example_handler) \<and>
   split (strip (drop (length (command_prefix example_handler)) (u ''!Nope x''))) =
     [u ''Nope'', u ''x''] \<and>
   str_lower ascii_builtins (u ''Nope'') = u ''nope'' \<and>
   commands example_handler (resolve example_handler (u ''nope'')) = None \<and>
   (\<exists>r. parse_command ascii_builtins example_handler (u ''!Nope x'') = Inr r \<and>
        valid r = Some False \<and> error r = Some (unknown_command_msg (u ''nope'')))"
proof -
  have l: "str_lower ascii_builtins (u ''Nope'') = u ''nope''"
    by (simp add: ascii_builtins_def ascii_lower_def u_def)
  have 1: "startswith (u ''!Nope x'') (command_prefix example_handler)"
    by (simp add: example_handler_prefix startswith_def u_def)
  have 2: "split (strip (drop (length (command_prefix example_handler)) (u ''!Nope x''))) =
     [u ''Nope'', u ''x'']"
    by (simp add: example_handler_prefix u_def strip_def split_def isspace_def)
  have 3: "commands example_handler (resolve example_handler (u ''nope'')) = None"
    by (simp add: example_handler_nope example_handler_lookup(5))
  note t = unknown_command_error [where message = "u ''!Nope x''" and st = example_handler
      and p = "u ''Nope''" and ps = "[u ''x'']" and py = ascii_builtins
      and help_command = pong_handler and status_command = pong_handler
      and test_command = pong_handler, THEN conjunct1]
  from t 1 2 3 l
  have "\<exists>r. parse_command ascii_builtins example_handler (u ''!Nope x'') = Inr r \<and>
        valid r = Some False \<and> error r = Some (unknown_command_msg (u ''nope''))"
    by auto
  with 1 2 3 l show ?thesis by blast
qed

text \<open>
  Against claim C5 as stated: for \<open>!Unknown\<close> the error text names \<open>unknown\<close> and does
  not contain the token as typed, \<open>Unknown\<close>.
\<close>

theorem unknown_command_as_typed_counterexample:
  "parse_command ascii_builtins example_handler (u ''!Unknown'') =
     Inr \<lparr>is_command = True, valid = Some False, command_name = Some (u ''unknown''),
          original_name = None, args = None, raw_args = None,
          error = Some (unknown_command_msg (u ''unknown''))\<rparr> \<and>
   \<not> contains (unknown_command_msg (u ''unknown'')) (u ''Unknown'')"
  by (simp add: example_handler_def init_def register_builtin_commands_def register_command_def
       parse_command_def u_def startswith_def strip_def isspace_def split_def ascii_builtins_def
       ascii_lower_def Let_def unknown_command_msg_def)

section \<open>Facts about sending\<close>

lemma send_text_effect:
  "send_text_calls (snd (send_text net cfg w content channel_id)) =
     send_text_calls w @ [(content, channel_id)]"
  "length (posts (snd (send_text net cfg w content channel_id))) =
     length (posts w) + (if channel_resolvable cfg channel_id \<and> strip content \<noteq> [] then 1 else 0)"
  "sleeps (snd (send_text net cfg w content channel_id)) = sleeps w"
  by (auto simp: send_text_def Let_def channel_resolvable_def strip_def
      split: option.splits reply.splits)

lemma strip_Nil [simp]: "strip [] = []"
  by (simp add: strip_def)

lemma send_multiple_loop_calls:
  "send_text_calls (snd (send_multiple_loop net cfg channel_id n i messages results w)) =
     send_text_calls w @ map (\<lambda>m. (m, channel_id)) (filter (\<lambda>m. strip m \<noteq> []) messages)"
proof (induction messages arbitrary: i results w)
  case Nil
  show ?case by simp
next
  case (Cons m ms)
  show ?case
  proof (cases "strip m = []")
    case True
    then show ?thesis using Cons.IH by simp
  next
    case False
    then have "m \<noteq> []" by auto
    obtain ok w1 where s: "send_text net cfg w m channel_id = (ok, w1)" by (cases "send_text net cfg w m channel_id")
    then have c: "send_text_calls w1 = send_text_calls w @ [(m, channel_id)]"
      using send_text_effect(1) [of net cfg w m channel_id] by simp
    show ?thesis using False \<open>m \<noteq> []\<close> s c
      by (simp add: Cons.IH)
  qed
qed

lemma send_multiple_loop_posts:
  "length (posts (snd (send_multiple_loop net cfg channel_id n i messages results w))) =
     length (posts w) +
     (if channel_resolvable cfg channel_id
      then length (filter (\<lambda>m. strip m \<noteq> []) messages) else 0)"
proof (induction messages arbitrary: i results w)
  case Nil
  show ?case by simp
next
  case (Cons m ms)
  show ?case
  proof (cases "strip m = []")
    case True
    then show ?thesis using Cons.IH by simp
  next
    case False
    then have "m \<noteq> []" by auto
    obtain ok w1 where s: "send_text net cfg w m channel_id = (ok, w1)" by (cases "send_text net cfg w m channel_id")
    then have c: "length (posts w1) = length (posts w) + (if channel_resolvable cfg channel_id then 1 else 0)"
      using send_text_effect(2) [of net cfg w m channel_id] False by simp
    show ?thesis using False \<open>m \<noteq> []\<close> s c
      by (simp add: Cons.IH)
  qed
qed

lemma send_multiple_loop_blank:
  "strip b = [] \<Longrightarrow> b \<in> set messages \<or> results b = Some False \<Longrightarrow>
   fst (send_multiple_loop net cfg channel_id n i messages results w) b = Some False"
proof (induction messages arbitrary: i results w)
  case Nil
  then show ?case by simp
next
  case (Cons m ms)
  show ?case
  proof (cases "strip m = []")
    case True
    have "b \<in> set ms \<or> (results(m \<mapsto> False)) b = Some False"
      using Cons.prems(2) by auto
    then show ?thesis using True Cons.IH [OF Cons.prems(1)] by simp
  next
    case False
    then have "m \<noteq> []" "m \<noteq> b" using Cons.prems(1) by auto
    obtain ok w1 where s: "send_text net cfg w m channel_id = (ok, w1)" by (cases "send_text net cfg w m channel_id")
    have "b \<in> set ms \<or> (results(m \<mapsto> ok)) b = Some False"
      using Cons.prems(2) \<open>m \<noteq> b\<close> by auto
    then show ?thesis using False \<open>m \<noteq> []\<close> s Cons.IH [OF Cons.prems(1)]
      by simp
  qed
qed

section \<open>Batched sending\<close>

text \<open>
  Claim C8, as amended. \<open>send_multiple\<close> goes through its input in order: it calls
  \<open>send_text\<close> exactly for the entries that are not empty or whitespace, in their order,
  and records every empty or whitespace entry as failed without a call. The number of
  transport requests is the number of such calls when a channel is resolvable and none
  otherwise. For the empty string, two spaces and \<open>hello\<close>: one call of \<open>send_text\<close>,
  for \<open>hello\<close>; both blank entries are recorded as failed; one transport request when a
  channel is resolvable, none otherwise.
\<close>

theorem send_multiple_skips_blank:
  "send_text_calls (snd (send_multiple net cfg w messages channel_id)) =
     send_text_calls w @
     map (\<lambda>m. (m, channel_id)) (filter (\<lambda>m. strip m \<noteq> []) messages) \<and>
   (\<forall>m \<in> set messages. strip m = [] \<longrightarrow>
      fst (send_multiple net cfg w messages channel_id) m = Some False) \<and>
   length (posts (snd (send_multiple net cfg w messages channel_id))) =
     length (posts w) +
     (if channel_resolvable cfg channel_id
      then length (filter (\<lambda>m. strip m \<noteq> []) messages) else 0) \<and>
   send_text_calls (snd (send_multiple net cfg empty_world [ [], u ''  '', u ''hello''] channel_id)) =
     [(u ''hello'', channel_id)] \<and>
   fst (send_multiple net cfg empty_world [ [], u ''  '', u ''hello''] channel_id) [] = Some False \<and>
   fst (send_multiple net cfg empty_world [ [], u ''  '', u ''hello''] channel_id) (u ''  '') =
     Some False \<and>
   length (posts (snd (send_multiple net cfg empty_world [ [], u ''  '', u ''hello''] channel_id))) =
     (if channel_resolvable cfg channel_id then 1 else 0)"
proof -
  have b: "strip (u ''  '') = []" "strip (u ''hello'') \<noteq> []"
    by (simp_all add: strip_def u_def isspace_def)
  have e: "send_text_calls empty_world = []" "posts empty_world = []"
    by (simp_all add: empty_world_def)
  have 1: "send_text_calls (snd (send_multiple net cfg w' ms channel_id)) =
     send_text_calls w' @ map (\<lambda>m. (m, channel_id)) (filter (\<lambda>m. strip m \<noteq> []) ms)"
    for w' ms
    unfolding send_multiple_def by (rule send_multiple_loop_calls)
  have 2: "length (posts (snd (send_multiple net cfg w' ms channel_id))) =
     length (posts w') +
     (if channel_resolvable cfg channel_id
      then length (filter (\<lambda>m. strip m \<noteq> []) ms) else 0)" for w' ms
    unfolding send_multiple_def by (rule send_multiple_loop_posts)
  have 3: "fst (send_multiple net cfg w' ms channel_id) m = Some False"
    if "strip m = []" "m \<in> set ms" for w' ms m
    unfolding send_multiple_def using that by (simp add: send_multiple_loop_blank)
  have 4: "fst (send_multiple net cfg empty_world [ [], u ''  '', u ''hello''] channel_id) [] =
     Some False" by (rule 3) simp_all
  have 5: "fst (send_multiple net cfg empty_world [ [], u ''  '', u ''hello''] channel_id)
     (u ''  '') = Some False" by (rule 3) (simp_all add: b)
  have 6: "send_text_calls (snd (send_multiple net cfg empty_world [ [], u ''  '', u ''hello'']
     channel_id)) = [(u ''hello'', channel_id)]"
    unfolding 1 by (simp add: b e)
  have 7: "length (posts (snd (send_multiple net cfg empty_world [ [], u ''  '', u ''hello'']
     channel_id))) = (if channel_resolvable cfg channel_id then 1 else 0)"
    unfolding 2 by (simp add: b e)
  from 1 2 3 4 5 6 7 show ?thesis by blast
qed

text \<open>
  With a configured channel: a blank entry between two messages is recorded as failed,
  \<open>send_text\<close> is called for the two others, and the three-entry input of the claim
  makes one transport request.
\<close>

theorem send_multiple_skips_blank_witness:
  "u ''  '' \<in> set [u ''a'', u ''  '', u ''b''] \<and> strip (u ''  '') = [] \<and>
   channel_resolvable (Some (u ''c1'')) None \<and>
   fst (send_multiple ok_transport (Some (u ''c1'')) empty_world [u ''a'', u ''  '', u ''b''] None)
     (u ''  '') = Some False \<and>
   send_text_calls (snd (send_multiple ok_transport (Some (u ''c1'')) empty_world
     [u ''a'', u ''  '', u ''b''] None)) = [(u ''a'', None), (u ''b'', None)] \<and>
   length (posts (snd (send_multiple ok_transport (Some (u ''c1'')) empty_world
     [ [], u ''  '', u ''hello''] None))) = 1"
proof -
  have b: "strip (u ''  '') = []" "strip (u ''a'') \<noteq> []" "strip (u ''b'') \<noteq> []"
    by (simp_all add: strip_def u_def isspace_def)
  have m: "u ''  '' \<in> set [u ''a'', u ''  '', u ''b'']" by simp
  have r: "channel_resolvable (Some (u ''c1'')) None"
    by (simp add: channel_resolvable_def u_def)
  have e: "send_text_calls empty_world = []" by (simp add: empty_world_def)
  note t = send_multiple_skips_blank [of ok_transport "Some (u ''c1'')" empty_world
      "[u ''a'', u ''  '', u ''b'']" None]
  from t m b(1)
  have 1: "fst (send_multiple ok_transport (Some (u ''c1'')) empty_world
     [u ''a'', u ''  '', u ''b''] None) (u ''  '') = Some False" by blast
  from t have "send_text_calls (snd (send_multiple ok_transport (Some (u ''c1'')) empty_world
     [u ''a'', u ''  '', u ''b''] None)) =
     send_text_calls empty_world @
     map (\<lambda>m. (m, None)) (filter (\<lambda>m. strip m \<noteq> []) [u ''a'', u ''  '', u ''b''])" by blast
  then have 2: "send_text_calls (snd (send_multiple ok_transport (Some (u ''c1'')) empty_world
     [u ''a'', u ''  '', u ''b''] None)) = [(u ''a'', None), (u ''b'', None)]"
    by (simp add: b e)
  from t r have 3: "length (posts (snd (send_multiple ok_transport (Some (u ''c1'')) empty_world
     [ [], u ''  '', u ''hello''] None))) = 1" by simp
  from m b(1) r 1 2 3 show ?thesis by blast
qed

text \<open>
  Against claim C8 as stated: with no channel given and none configured, the same
  input makes one call of \<open>send_text\<close> and no transport request at all.
\<close>

theorem send_multiple_transport_counterexample:
  "send_text_calls (snd (send_multiple ok_transport None empty_world
     [ [], u ''  '', u ''hello''] None)) = [(u ''hello'', None)] \<and>
   posts (snd (send_multiple ok_transport None empty_world [ [], u ''  '', u ''hello''] None)) = [] \<and>
   fst (send_multiple ok_transport None empty_world [ [], u ''  '', u ''hello''] None) (u ''hello'')
     = Some False"
  by (simp add: send_multiple_def send_text_def empty_world_def strip_def u_def isspace_def)

end
